theory Spec2Isabelle
  imports Complex_Main "HOL-Library.Multiset"
begin

section \<open>Python primitives used by the two coverage scripts\<close>

text \<open>
  Python integers are unbounded and are modelled by \<open>int\<close>. \<open>str(n)\<close> is the decimal
  rendering of an integer, with a leading minus sign for negative values.
\<close>

definition digit_char :: "nat \<Rightarrow> char" where
  "digit_char d = char_of (48 + d)"

fun str_nat :: "nat \<Rightarrow> string" where
  "str_nat n = (if n < 10 then [digit_char n] else str_nat (n div 10) @ [digit_char (n mod 10)])"

declare str_nat.simps [simp del]

definition str_int :: "int \<Rightarrow> string" where
  "str_int i = (if i < 0 then CHR ''-'' # str_nat (nat (- i)) else str_nat (nat i))"

text \<open>\<open>sep.join(parts)\<close>.\<close>

fun join :: "string \<Rightarrow> string list \<Rightarrow> string" where
  "join sep [] = []"
| "join sep [p] = p"
| "join sep (p # q # ps) = p @ sep @ join sep (q # ps)"

section \<open>Range summarizer (analyze-coverage-json.py, \<open>summarize_line_ranges\<close>)\<close>

text \<open>
  The two renderings of a finished run: \<open>str(start)\<close> when \<open>start == end\<close>, and
  \<open>f"{start}-{end}"\<close> otherwise.
\<close>

definition render_range :: "int \<Rightarrow> int \<Rightarrow> string" where
  "render_range start end' =
     (if start = end' then str_int start else str_int start @ ''-'' @ str_int end')"

text \<open>
  The \<open>for line in sorted_lines[1:]\<close> loop. The loop state is the triple
  \<open>(ranges, start, end)\<close>.
\<close>

fun ranges_loop :: "int list \<Rightarrow> string list \<times> int \<times> int \<Rightarrow> string list \<times> int \<times> int" where
  "ranges_loop [] st = st"
| "ranges_loop (line # rest) (ranges, start, end') =
     (if line = end' + 1 then ranges_loop rest (ranges, start, line)
      else ranges_loop rest (ranges @ [render_range start end'], line, line))"

text \<open>
  \<open>sorted(lines)\<close> on integers is the ascending rearrangement of the list, which is what
  \<open>sort\<close> computes. \<open>ranges[:3]\<close> is \<open>take 3\<close>.
\<close>

definition summarize_line_ranges :: "int list \<Rightarrow> string" where
  "summarize_line_ranges lines =
     (if lines = [] then ''''
      else
        let sorted_lines = sort lines;
            (ranges, start, end') =
               ranges_loop (tl sorted_lines) ([], hd sorted_lines, hd sorted_lines);
            ranges = ranges @ [render_range start end']
        in join '', '' (take 3 ranges) @ (if length ranges > 3 then '' ...'' else ''''))"

section \<open>Regular expressions of the attribution heuristic\<close>

text \<open>
  Characters are code points below 256. \<open>\s\<close> and \<open>\w\<close> (which decides \<open>\b\<close>) are
  Python's classes for \<open>str\<close> patterns restricted to that range; the bracketed classes of
  the two patterns are ASCII by definition; \<open>.\<close> is every character but the newline.
\<close>

definition is_space :: "char \<Rightarrow> bool" where
  "is_space c =
     (let n = (of_char c :: nat)
      in (9 \<le> n \<and> n \<le> 13) \<or> (28 \<le> n \<and> n \<le> 32) \<or> n = 133 \<or> n = 160)"

definition id_start :: "char \<Rightarrow> bool" where
  "id_start c =
     (let n = (of_char c :: nat)
      in (97 \<le> n \<and> n \<le> 122) \<or> (65 \<le> n \<and> n \<le> 90) \<or> n = 95)"

definition id_rest :: "char \<Rightarrow> bool" where
  "id_rest c = (id_start c \<or> (let n = (of_char c :: nat) in 48 \<le> n \<and> n \<le> 57))"

definition id_rest_angle :: "char \<Rightarrow> bool" where
  "id_rest_angle c = (id_rest c \<or> c = CHR ''<'' \<or> c = CHR ''>'')"

definition is_word :: "char \<Rightarrow> bool" where
  "is_word c =
     (id_rest c \<or>
      (let n = (of_char c :: nat)
       in n = 170 \<or> n = 178 \<or> n = 179 \<or> n = 181 \<or> n = 185 \<or> n = 186 \<or>
          (188 \<le> n \<and> n \<le> 190) \<or> (192 \<le> n \<and> n \<noteq> 215 \<and> n \<noteq> 247)))"

definition any_char :: "char \<Rightarrow> bool" where
  "any_char c = (c \<noteq> CHR 0x0A)"

text \<open>
  The fragment of regular expressions the two patterns are written in. Repetition is
  only ever applied to a character class. \<open>Plus\<close> and \<open>Star\<close> are greedy, \<open>LazyStar\<close> is
  \<open>*?\<close>, \<open>Opt\<close> is a (greedy) optional group, \<open>WordB\<close> is \<open>\b\<close>.
\<close>

datatype rx =
    Lit string
  | Cls "char \<Rightarrow> bool"
  | Plus "char \<Rightarrow> bool"
  | Star "char \<Rightarrow> bool"
  | LazyStar "char \<Rightarrow> bool"
  | WordB
  | Seq rx rx
  | Opt rx

text \<open>
  A position in the subject string: the text before it (reversed, nearest character
  first) and the text after it.
\<close>

type_synonym pos = "string \<times> string"

definition advance :: "nat \<Rightarrow> pos \<Rightarrow> pos" where
  "advance k p = (rev (take k (snd p)) @ fst p, drop k (snd p))"

definition at_boundary :: "pos \<Rightarrow> bool" where
  "at_boundary p =
     ((case fst p of [] \<Rightarrow> False | b # _ \<Rightarrow> is_word b) \<noteq>
      (case snd p of [] \<Rightarrow> False | a # _ \<Rightarrow> is_word a))"

text \<open>
  Backtracking matcher: every position at which a match of the expression started at
  \<open>p\<close> can end, in the order in which a backtracking engine tries them (greedy
  repetition longest first, lazy repetition shortest first, an optional group entered
  before it is skipped).
\<close>

primrec rx_match :: "rx \<Rightarrow> pos \<Rightarrow> pos list" where
  "rx_match (Lit s) p = (if take (length s) (snd p) = s then [advance (length s) p] else [])"
| "rx_match (Cls P) p =
     (case snd p of [] \<Rightarrow> [] | c # _ \<Rightarrow> if P c then [advance 1 p] else [])"
| "rx_match (Plus P) p =
     map (\<lambda>k. advance k p) (rev [1..<Suc (length (takeWhile P (snd p)))])"
| "rx_match (Star P) p =
     map (\<lambda>k. advance k p) (rev [0..<Suc (length (takeWhile P (snd p)))])"
| "rx_match (LazyStar P) p =
     map (\<lambda>k. advance k p) [0..<Suc (length (takeWhile P (snd p)))]"
| "rx_match WordB p = (if at_boundary p then [p] else [])"
| "rx_match (Seq r1 r2) p = concat (map (rx_match r2) (rx_match r1 p))"
| "rx_match (Opt r) p = rx_match r p @ [p]"

text \<open>
  \<open>re.search\<close> for a pattern of the shape \<open>pre(grp)\<close>: the start positions are tried from
  left to right, and the text of the final group in the first match found is returned.
\<close>

definition group_text :: "pos \<Rightarrow> pos \<Rightarrow> string" where
  "group_text p e = take (length (snd p) - length (snd e)) (snd p)"

definition rx_search_group :: "rx \<Rightarrow> rx \<Rightarrow> string \<Rightarrow> string option" where
  "rx_search_group pre grp subject =
     (case concat (map (\<lambda>k. concat (map (\<lambda>p. map (group_text p) (rx_match grp p))
                                          (rx_match pre (advance k ([], subject)))))
                       [0..<Suc (length subject)]) of
        [] \<Rightarrow> None
      | g # _ \<Rightarrow> Some g)"

text \<open>\<open>\b(pub\s+)?(\basync\s+)?fn\s+([a-zA-Z_][a-zA-Z0-9_]*)\<close>, returning group 3.\<close>

definition fn_pre :: rx where
  "fn_pre =
     Seq WordB
      (Seq (Opt (Seq (Lit ''pub'') (Plus is_space)))
        (Seq (Opt (Seq WordB (Seq (Lit ''async'') (Plus is_space))))
          (Seq (Lit ''fn'') (Plus is_space))))"

definition fn_search :: "string \<Rightarrow> string option" where
  "fn_search = rx_search_group fn_pre (Seq (Cls id_start) (Star id_rest))"

text \<open>
  \<open>impl\s+(?:.*?\s+for\s+)?([a-zA-Z_][a-zA-Z0-9_<>]*)\<close> in the direct-JSON script and
  \<open>impl\s+(?:.*?\s+for\s+)?([a-zA-Z_][a-zA-Z0-9_]*)\<close> in the HTML script, returning
  group 1.
\<close>

definition impl_pre :: rx where
  "impl_pre =
     Seq (Lit ''impl'')
      (Seq (Plus is_space)
        (Opt (Seq (LazyStar any_char)
               (Seq (Plus is_space) (Seq (Lit ''for'') (Plus is_space))))))"

definition impl_search_json :: "string \<Rightarrow> string option" where
  "impl_search_json = rx_search_group impl_pre (Seq (Cls id_start) (Star id_rest_angle))"

definition impl_search_html :: "string \<Rightarrow> string option" where
  "impl_search_html = rx_search_group impl_pre (Seq (Cls id_start) (Star id_rest))"

section \<open>Function attribution heuristic (\<open>extract_function_at_line\<close>)\<close>

text \<open>\<open>range(a, b, -1)\<close>: \<open>a, a - 1, \<dots>, b + 1\<close>, empty unless \<open>a > b\<close>.\<close>

definition range_down :: "int \<Rightarrow> int \<Rightarrow> int list" where
  "range_down a b = rev [b + 1..a]"

text \<open>
  The body of the \<open>for i in range(\<dots>)\<close> loop, shared by both scripts up to the pattern
  for implementation blocks: \<open>Some\<close> is an early \<open>return\<close>, \<open>None\<close> is falling out of the
  loop. Every index the loop is run on is positive (see \<open>range_down_pos\<close> below), so
  \<open>lines[i]\<close> is \<open>lines ! nat i\<close> under the guard \<open>i < len(lines)\<close>.
\<close>

fun scan_lines :: "(string \<Rightarrow> string option) \<Rightarrow> string list \<Rightarrow> int list \<Rightarrow> string option" where
  "scan_lines impl_search lines [] = None"
| "scan_lines impl_search lines (i # is) =
     (if i < int (length lines) then
        (case fn_search (lines ! nat i) of
           Some name \<Rightarrow> Some name
         | None \<Rightarrow>
             (case impl_search (lines ! nat i) of
                Some name \<Rightarrow> Some (''impl '' @ name)
              | None \<Rightarrow> scan_lines impl_search lines is))
      else scan_lines impl_search lines is)"

text \<open>
  \<open>content.split('\n')\<close>: a character other than the newline joins the first piece of
  the rest (the split of a string is never the empty list, so the first branch of the
  \<open>case\<close> is not taken).
\<close>

fun split_lines :: "string \<Rightarrow> string list" where
  "split_lines [] = [[]]"
| "split_lines (c # cs) =
     (if c = CHR 0x0A then [] # split_lines cs
      else (case split_lines cs of [] \<Rightarrow> [[c]] | w # ws \<Rightarrow> (c # w) # ws))"

text \<open>HTML script: the text of the file is the \<open>content\<close> string of the report.\<close>

definition extract_function_at_line_html :: "string \<Rightarrow> int \<Rightarrow> string" where
  "extract_function_at_line_html text line_num =
     (case scan_lines impl_search_html (split_lines text)
             (range_down (max 0 (line_num - 1)) (max 0 (line_num - 20))) of
        Some label \<Rightarrow> label
      | None \<Rightarrow> ''unknown'')"

text \<open>
  Direct-JSON script: the file is read from disk. A path is in one of four states:
  \<^item> \<open>Missing\<close>: it names no file, and \<open>file_path.exists()\<close> returns \<open>False\<close>;
  \<^item> \<open>StatFails\<close>: its status cannot be read and \<open>file_path.exists()\<close> itself raises.
    \<open>Path.exists\<close> returns \<open>False\<close> only for the errors ENOENT, ENOTDIR, EBADF and ELOOP
    and raises every other \<open>OSError\<close> again, such as a path component longer than the
    system allows (ENAMETOOLONG) or a directory that may not be searched (EACCES);
  \<^item> \<open>Unreadable\<close>: it exists, and \<open>open\<close> or \<open>readlines\<close> raises;
  \<^item> \<open>Readable\<close>: it exists, and \<open>readlines\<close> returns the given lines (each line
    keeps its newline).
\<close>

datatype py_error = KeyError | ZeroDivisionError | OSError

datatype source_file = Missing | StatFails | Unreadable | Readable "string list"

type_synonym filesystem = "string \<Rightarrow> source_file"

text \<open>\<open>file_path.exists()\<close>.\<close>

definition path_exists :: "filesystem \<Rightarrow> string \<Rightarrow> py_error + bool" where
  "path_exists fs p =
     (case fs p of
        Missing \<Rightarrow> Inr False
      | StatFails \<Rightarrow> Inl OSError
      | Unreadable \<Rightarrow> Inr True
      | Readable ls \<Rightarrow> Inr True)"

text \<open>\<open>open(file_path, 'r')\<close> followed by \<open>f.readlines()\<close>.\<close>

definition readlines :: "filesystem \<Rightarrow> string \<Rightarrow> py_error + string list" where
  "readlines fs p = (case fs p of Readable ls \<Rightarrow> Inr ls | _ \<Rightarrow> Inl OSError)"

text \<open>
  The call of \<open>file_path.exists()\<close> stands before the \<open>try\<close> statement: what it raises
  leaves the function. The \<open>try\<close> block either raises or returns early with a label or
  falls through; \<open>except Exception: pass\<close> and falling through both reach the final
  \<open>return "unknown"\<close>.
\<close>

definition extract_try_block :: "filesystem \<Rightarrow> string \<Rightarrow> int \<Rightarrow> py_error + string option" where
  "extract_try_block fs p line_num =
     (case readlines fs p of
        Inl e \<Rightarrow> Inl e
      | Inr lines \<Rightarrow>
          Inr (scan_lines impl_search_json lines
                 (range_down (max 0 (line_num - 1)) (max 0 (line_num - 30)))))"

definition extract_function_at_line_json :: "filesystem \<Rightarrow> string \<Rightarrow> int \<Rightarrow> py_error + string" where
  "extract_function_at_line_json fs p line_num =
     (case path_exists fs p of
        Inl e \<Rightarrow> Inl e
      | Inr found \<Rightarrow>
          if \<not> found then Inr ''unknown''
          else
            (case extract_try_block fs p line_num of
               Inl e \<Rightarrow> Inr ''unknown''
             | Inr (Some label) \<Rightarrow> Inr label
             | Inr None \<Rightarrow> Inr ''unknown''))"

section \<open>Grouping uncovered lines\<close>

text \<open>
  \<open>func_lines[func_name].append(line_num)\<close> on a \<open>defaultdict(list)\<close>. The dictionary is
  an association list in insertion order, the order in which the printer lists it.
\<close>

fun dd_append :: "'k \<Rightarrow> 'v \<Rightarrow> ('k \<times> 'v list) list \<Rightarrow> ('k \<times> 'v list) list" where
  "dd_append k v [] = [(k, [v])]"
| "dd_append k v ((k', vs) # rest) =
     (if k = k' then (k', vs @ [v]) # rest else (k', vs) # dd_append k v rest)"

text \<open>
  The \<open>for line_num in uncovered_lines[:50]\<close> loop of \<open>group_uncovered_by_function\<close>, on
  the dictionary built so far. The loop has no handler: an exception of
  \<open>extract_function_at_line\<close> ends it.
\<close>

fun group_loop ::
    "filesystem \<Rightarrow> string \<Rightarrow> int list \<Rightarrow> (string \<times> int list) list \<Rightarrow>
     py_error + (string \<times> int list) list" where
  "group_loop fs file_path [] func_lines = Inr func_lines"
| "group_loop fs file_path (line_num # rest) func_lines =
     (case extract_function_at_line_json fs file_path line_num of
        Inl e \<Rightarrow> Inl e
      | Inr func_name \<Rightarrow>
          group_loop fs file_path rest (dd_append func_name line_num func_lines))"

definition group_uncovered_by_function ::
    "filesystem \<Rightarrow> string \<Rightarrow> int list \<Rightarrow> py_error + (string \<times> int list) list" where
  "group_uncovered_by_function fs file_path uncovered =
     group_loop fs file_path (take 50 uncovered) []"

text \<open>
  HTML script, \<open>find_uncovered_functions\<close>: the loop state is
  \<open>(uncovered_funcs, seen_funcs)\<close>.
\<close>

fun find_uncovered_loop ::
    "string \<Rightarrow> int list \<Rightarrow> (int \<times> string) list \<times> string set \<Rightarrow> (int \<times> string) list \<times> string set" where
  "find_uncovered_loop text [] st = st"
| "find_uncovered_loop text (line_num # rest) (uncovered_funcs, seen_funcs) =
     (let func_name = extract_function_at_line_html text line_num
      in if func_name \<notin> seen_funcs \<and> func_name \<noteq> ''unknown''
         then find_uncovered_loop text rest
                (uncovered_funcs @ [(line_num, func_name)], insert func_name seen_funcs)
         else find_uncovered_loop text rest (uncovered_funcs, seen_funcs))"

section \<open>Per-file analyzer (\<open>analyze_file_coverage\<close>)\<close>

text \<open>
  A trace object of the report: a dictionary that may have a \<open>line\<close> key and a \<open>stats\<close>
  key, the latter a dictionary that may have a \<open>Line\<close> key holding the hit count.
\<close>

record trace =
  trace_line :: "int option"
  trace_stats :: "(string \<rightharpoonup> int) option"

text \<open>
  The dictionary \<open>analyze_file_coverage\<close> returns. The percentage is a Python float;
  it is modelled by the exact rational it rounds.
\<close>

record analysis =
  path :: string
  total_lines :: int
  covered_lines :: int
  uncovered_lines :: int
  coverage_percent :: rat
  uncovered_line_numbers :: "int list"

record analysis_html = analysis +
  content :: string

text \<open>Python's \<open>a / b\<close> on integers raises when the divisor is zero.\<close>

definition truediv :: "int \<Rightarrow> int \<Rightarrow> py_error + rat" where
  "truediv a b = (if b = 0 then Inl ZeroDivisionError else Inr (of_int a / of_int b))"

text \<open>\<open>(covered / total * 100) if total > 0 else 0\<close>, as written in both scripts.\<close>

definition percent_of :: "int \<Rightarrow> int \<Rightarrow> py_error + rat" where
  "percent_of cov tot =
     (if tot > 0 then
        (case truediv cov tot of Inl e \<Rightarrow> Inl e | Inr q \<Rightarrow> Inr (q * 100))
      else Inr 0)"

subsection \<open>Direct-JSON script\<close>

text \<open>\<open>trace.get('stats', {}).get('Line', 0)\<close>.\<close>

definition hits_json :: "trace \<Rightarrow> int" where
  "hits_json t =
     (case trace_stats t of
        None \<Rightarrow> 0
      | Some st \<Rightarrow> (case st ''Line'' of None \<Rightarrow> 0 | Some h \<Rightarrow> h))"

text \<open>\<open>[trace['line'] for trace in traces if \<dots> == 0]\<close>; \<open>trace['line']\<close> raises on a
  trace without that key.\<close>

fun uncovered_nums_json :: "trace list \<Rightarrow> py_error + int list" where
  "uncovered_nums_json [] = Inr []"
| "uncovered_nums_json (t # ts) =
     (if hits_json t = 0 then
        (case trace_line t of
           None \<Rightarrow> Inl KeyError
         | Some n \<Rightarrow>
             (case uncovered_nums_json ts of Inl e \<Rightarrow> Inl e | Inr ns \<Rightarrow> Inr (n # ns)))
      else uncovered_nums_json ts)"

definition analyze_file_coverage_json :: "string \<Rightarrow> trace list \<Rightarrow> py_error + analysis" where
  "analyze_file_coverage_json file_path traces =
     (let tot = int (length traces);
          cov = int (length (filter (\<lambda>t. hits_json t > 0) traces));
          uncov = tot - cov
      in case percent_of cov tot of
           Inl e \<Rightarrow> Inl e
         | Inr pct \<Rightarrow>
             (case uncovered_nums_json traces of
                Inl e \<Rightarrow> Inl e
              | Inr nums \<Rightarrow>
                  Inr \<lparr>path = file_path, total_lines = tot, covered_lines = cov,
                       uncovered_lines = uncov, coverage_percent = pct,
                       uncovered_line_numbers = nums\<rparr>))"

subsection \<open>HTML script\<close>

text \<open>\<open>trace['stats']['Line']\<close>: no defaults.\<close>

definition hits_html :: "trace \<Rightarrow> py_error + int" where
  "hits_html t =
     (case trace_stats t of
        None \<Rightarrow> Inl KeyError
      | Some st \<Rightarrow> (case st ''Line'' of None \<Rightarrow> Inl KeyError | Some h \<Rightarrow> Inr h))"

text \<open>\<open>sum(1 for trace in traces if trace['stats']['Line'] > 0)\<close>.\<close>

fun count_covered_html :: "trace list \<Rightarrow> py_error + int" where
  "count_covered_html [] = Inr 0"
| "count_covered_html (t # ts) =
     (case hits_html t of
        Inl e \<Rightarrow> Inl e
      | Inr h \<Rightarrow>
          (case count_covered_html ts of
             Inl e \<Rightarrow> Inl e
           | Inr n \<Rightarrow> Inr ((if h > 0 then 1 else 0) + n)))"

fun uncovered_nums_html :: "trace list \<Rightarrow> py_error + int list" where
  "uncovered_nums_html [] = Inr []"
| "uncovered_nums_html (t # ts) =
     (case hits_html t of
        Inl e \<Rightarrow> Inl e
      | Inr h \<Rightarrow>
          if h = 0 then
            (case trace_line t of
               None \<Rightarrow> Inl KeyError
             | Some n \<Rightarrow>
                 (case uncovered_nums_html ts of Inl e \<Rightarrow> Inl e | Inr ns \<Rightarrow> Inr (n # ns)))
          else uncovered_nums_html ts)"

text \<open>
  An entry of the report's \<open>files\<close> list: \<open>path\<close> and \<open>content\<close> are read with
  \<open>file_data[\<dots>]\<close>, \<open>traces\<close> with \<open>file_data.get('traces', [])\<close>.
\<close>

record file_data =
  fd_path :: "string list option"
  fd_content :: "string option"
  fd_traces :: "trace list option"

definition analyze_file_coverage_html :: "file_data \<Rightarrow> py_error + analysis_html" where
  "analyze_file_coverage_html fd =
     (case fd_path fd of
        None \<Rightarrow> Inl KeyError
      | Some segments \<Rightarrow>
     (case fd_content fd of
        None \<Rightarrow> Inl KeyError
      | Some text \<Rightarrow>
     (let traces = (case fd_traces fd of None \<Rightarrow> [] | Some ts \<Rightarrow> ts);
          tot = int (length traces)
      in case count_covered_html traces of
           Inl e \<Rightarrow> Inl e
         | Inr cov \<Rightarrow>
     (case percent_of cov tot of
        Inl e \<Rightarrow> Inl e
      | Inr pct \<Rightarrow>
     (case uncovered_nums_html traces of
        Inl e \<Rightarrow> Inl e
      | Inr nums \<Rightarrow>
          Inr \<lparr>path = join ''/'' segments, total_lines = tot, covered_lines = cov,
               uncovered_lines = tot - cov, coverage_percent = pct,
               uncovered_line_numbers = nums, content = text\<rparr>)))))"

definition find_uncovered_functions :: "analysis_html \<Rightarrow> (int \<times> string) list" where
  "find_uncovered_functions file_analysis =
     fst (find_uncovered_loop (content file_analysis)
            (uncovered_line_numbers file_analysis) ([], {}))"

section \<open>Overall statistics of the report printer (\<open>print_summary\<close>)\<close>

text \<open>
  The four numbers of the overall block that \<open>print_summary\<close> prints first: coverage,
  total coverable lines, covered lines, uncovered lines.
\<close>

record overall =
  overall_coverage :: rat
  total_all_lines :: int
  covered_all_lines :: int
  uncovered_all_lines :: int

definition overall_statistics :: "int list \<Rightarrow> int list \<Rightarrow> py_error + overall" where
  "overall_statistics totals covereds =
     (let total_all = sum_list totals;
          covered_all = sum_list covereds
      in case percent_of covered_all total_all of
           Inl e \<Rightarrow> Inl e
         | Inr pct \<Rightarrow>
             Inr \<lparr>overall_coverage = pct, total_all_lines = total_all,
                  covered_all_lines = covered_all,
                  uncovered_all_lines = total_all - covered_all\<rparr>)"

text \<open>HTML script: \<open>print_summary(all_analyses)\<close>.\<close>

definition print_summary_html :: "analysis_html list \<Rightarrow> py_error + overall" where
  "print_summary_html all_analyses =
     overall_statistics (map total_lines all_analyses) (map covered_lines all_analyses)"

text \<open>HTML script: the loop of \<open>main\<close> that builds \<open>all_analyses\<close>.\<close>

fun analyze_all_html :: "file_data list \<Rightarrow> py_error + analysis_html list" where
  "analyze_all_html [] = Inr []"
| "analyze_all_html (fd # fds) =
     (case analyze_file_coverage_html fd of
        Inl e \<Rightarrow> Inl e
      | Inr a \<Rightarrow> (case analyze_all_html fds of Inl e \<Rightarrow> Inl e | Inr as \<Rightarrow> Inr (a # as)))"

text \<open>
  Direct-JSON script: \<open>print_summary(coverage_data)\<close>, whose argument is given by the
  items of \<open>coverage_data.get('traces', {})\<close> in their order. Only paths ending in
  \<open>.rs\<close> with a non-empty trace list are analyzed. \<open>None\<close> is the branch that prints
  \<open>No coverage data found\<close>.
\<close>

definition endswith_rs :: "string \<Rightarrow> bool" where
  "endswith_rs p = (drop (length p - 3) p = ''.rs'')"

fun analyze_all_json :: "(string \<times> trace list) list \<Rightarrow> py_error + analysis list" where
  "analyze_all_json [] = Inr []"
| "analyze_all_json ((file_path, file_traces) # items) =
     (if endswith_rs file_path \<and> file_traces \<noteq> [] then
        (case analyze_file_coverage_json file_path file_traces of
           Inl e \<Rightarrow> Inl e
         | Inr a \<Rightarrow>
             (case analyze_all_json items of Inl e \<Rightarrow> Inl e | Inr as \<Rightarrow> Inr (a # as)))
      else analyze_all_json items)"

definition print_summary_json :: "(string \<times> trace list) list \<Rightarrow> py_error + overall option" where
  "print_summary_json items =
     (case analyze_all_json items of
        Inl e \<Rightarrow> Inl e
      | Inr all_analyses \<Rightarrow>
          if all_analyses \<noteq> [] then
            (case overall_statistics (map total_lines all_analyses)
                    (map covered_lines all_analyses) of
               Inl e \<Rightarrow> Inl e
             | Inr ov \<Rightarrow> Inr (Some ov))
          else Inr None)"

text \<open>
  The quantity the specification contrasts the overall percentage with: the arithmetic
  mean of the per-file percentages.
\<close>

definition mean_of_percentages :: "rat list \<Rightarrow> rat" where
  "mean_of_percentages ps = sum_list ps / of_nat (length ps)"

section \<open>Predicates used in the statements\<close>

text \<open>A trace that carries a line number and a non-negative hit count.\<close>

definition trace_ok :: "trace \<Rightarrow> bool" where
  "trace_ok t =
     (trace_line t \<noteq> None \<and>
      (case trace_stats t of
         None \<Rightarrow> False
       | Some st \<Rightarrow> (case st ''Line'' of None \<Rightarrow> False | Some h \<Rightarrow> 0 \<le> h)))"

text \<open>The trace object \<open>{"line": n, "stats": {"Line": h}}\<close>.\<close>

definition mk_trace :: "int \<Rightarrow> int \<Rightarrow> trace" where
  "mk_trace n h = \<lparr>trace_line = Some n, trace_stats = Some [''Line'' \<mapsto> h]\<rparr>"

text \<open>A line on which one of the two declaration patterns of a script matches.\<close>

definition declares_json :: "string \<Rightarrow> bool" where
  "declares_json l = (\<not> (fn_search l = None \<and> impl_search_json l = None))"

definition declares_html :: "string \<Rightarrow> bool" where
  "declares_html l = (\<not> (fn_search l = None \<and> impl_search_html l = None))"

text \<open>
  The scan window as the specification words it: the \<open>w\<close> lines before the target line
  \<open>n\<close> (numbered from 1), as far as the file has them.
\<close>

definition prior_lines :: "nat \<Rightarrow> string list \<Rightarrow> int \<Rightarrow> string list" where
  "prior_lines w lines n =
     map (\<lambda>k. lines ! nat (k - 1))
       (filter (\<lambda>k. 1 \<le> k \<and> k \<le> int (length lines)) [n - int w..n - 1])"

section \<open>Properties of the range summarizer\<close>

lemma sort_mset_cong: "mset xs = mset ys \<Longrightarrow> sort xs = sort (ys :: int list)"
  by (rule properties_for_sort) simp_all

text \<open>
  Claim C3. On \<open>[1,2,3,7,9,10]\<close> the summarizer returns exactly \<open>1-3, 7, 9-10\<close> (three
  ranges, no truncation marker); on \<open>[1,2,5,6,9,10,13,14]\<close> (four ranges) it returns the
  first three ranges joined with a comma and a space, followed by a space and three dots;
  on the empty list it returns the empty string.
\<close>

theorem summarize_examples:
  "summarize_line_ranges [1, 2, 3, 7, 9, 10] = ''1-3, 7, 9-10'' \<and>
   summarize_line_ranges [1, 2, 5, 6, 9, 10, 13, 14] = ''1-2, 5-6, 9-10 ...'' \<and>
   summarize_line_ranges [] = ''''"
  by code_simp

text \<open>
  Claim C4. The summarizer is invariant under permutation of its input: two lists with
  the same elements with the same multiplicities produce the same string, because the
  input is sorted before the runs are merged.
\<close>

theorem summarize_permutation_invariant:
  assumes "mset xs = mset ys"
  shows "summarize_line_ranges xs = summarize_line_ranges ys"
proof -
  from assms have "sort xs = sort ys" by (rule sort_mset_cong)
  moreover from assms have "(xs = []) = (ys = [])"
    by (metis mset_zero_iff)
  ultimately show ?thesis
    unfolding summarize_line_ranges_def by simp
qed

text \<open>In particular \<open>[5,3,4]\<close> and \<open>[3,4,5]\<close> both yield \<open>3-5\<close>.\<close>

theorem summarize_permutation_invariant_witness:
  "mset [5, 3, 4 :: int] = mset [3, 4, 5] \<and>
   summarize_line_ranges [5, 3, 4] = summarize_line_ranges [3, 4, 5] \<and>
   summarize_line_ranges [3, 4, 5] = ''3-5''"
proof -
  have h: "mset [5, 3, 4 :: int] = mset [3, 4, 5]" by simp
  have e: "summarize_line_ranges [3, 4, 5] = ''3-5''" by code_simp
  from summarize_permutation_invariant [OF h] h e show ?thesis by simp
qed

text \<open>
  Claim C1, as stated: summarizing a list with duplicates yields the same string as
  summarizing the list with the duplicates removed. It fails on \<open>[3,3,4]\<close>: the second
  \<open>3\<close> is not \<open>end + 1\<close>, so the loop takes its \<open>else\<close> branch, emits the run \<open>3\<close> and
  starts a new run at \<open>3\<close>, which \<open>4\<close> then extends.
\<close>

theorem summarize_duplicates_counterexample:
  "summarize_line_ranges [3, 3, 4] = ''3, 3-4'' \<and>
   summarize_line_ranges (remdups [3, 3, 4]) = ''3-4'' \<and>
   summarize_line_ranges [3, 3, 4] \<noteq> summarize_line_ranges (remdups [3, 3, 4])"
  by code_simp

text \<open>
  Claim C1, amended. A value equal to the current run's end does not extend the run; it
  closes the run, whose rendering is appended to the ranges, and starts a new run at that
  value. Duplicates are therefore repeated in the summary: for every \<open>n\<close>, the list
  \<open>[n, n]\<close> is summarized as \<open>n, n\<close>, while the list with the duplicate removed is
  summarized as \<open>n\<close>.
\<close>

theorem duplicate_closes_run:
  "ranges_loop (e # rest) (ranges, start, e) =
     ranges_loop rest (ranges @ [render_range start e], e, e) \<and>
   summarize_line_ranges [n, n] = str_int n @ '', '' @ str_int n \<and>
   summarize_line_ranges (remdups [n, n]) = str_int n"
  by (simp add: summarize_line_ranges_def render_range_def)

section \<open>Properties of the per-file analyzer\<close>

lemma hits_html_ok: "trace_ok t \<Longrightarrow> hits_html t = Inr (hits_json t)"
  by (auto simp: trace_ok_def hits_html_def hits_json_def split: option.splits)

lemma count_covered_html_ok:
  "\<forall>t \<in> set ts. trace_ok t \<Longrightarrow>
   count_covered_html ts = Inr (int (length (filter (\<lambda>t. hits_json t > 0) ts)))"
  by (induction ts) (simp_all add: hits_html_ok)

lemma uncovered_nums_json_ok:
  "\<forall>t \<in> set ts. trace_ok t \<Longrightarrow> \<exists>ns. uncovered_nums_json ts = Inr ns"
  by (induction ts) (auto simp: trace_ok_def)

lemma uncovered_nums_html_ok:
  "\<forall>t \<in> set ts. trace_ok t \<Longrightarrow> \<exists>ns. uncovered_nums_html ts = Inr ns"
  by (induction ts) (auto simp: hits_html_ok trace_ok_def)

lemma percent_of_total: "\<exists>q. percent_of c t = Inr q"
  by (simp add: percent_of_def truediv_def)

lemma analyze_json_fields:
  assumes "analyze_file_coverage_json p ts = Inr a"
  shows "total_lines a = int (length ts)"
    and "covered_lines a = int (length (filter (\<lambda>t. hits_json t > 0) ts))"
    and "uncovered_lines a = total_lines a - covered_lines a"
    and "percent_of (covered_lines a) (total_lines a) = Inr (coverage_percent a)"
  using assms
  by (auto simp: analyze_file_coverage_json_def Let_def split: sum.splits)

lemma analyze_html_fields:
  assumes "analyze_file_coverage_html fd = Inr a"
  shows "total_lines a = int (length (case fd_traces fd of None \<Rightarrow> [] | Some ts \<Rightarrow> ts))"
    and "count_covered_html (case fd_traces fd of None \<Rightarrow> [] | Some ts \<Rightarrow> ts)
           = Inr (covered_lines a)"
    and "uncovered_lines a = total_lines a - covered_lines a"
    and "percent_of (covered_lines a) (total_lines a) = Inr (coverage_percent a)"
  using assms
  by (auto simp: analyze_file_coverage_html_def Let_def split: sum.splits option.splits)

lemma analyze_json_returns:
  assumes "\<forall>t \<in> set ts. trace_ok t"
  shows "\<exists>a. analyze_file_coverage_json p ts = Inr a"
proof -
  obtain q where q: "percent_of (int (length (filter (\<lambda>t. hits_json t > 0) ts)))
                       (int (length ts)) = Inr q"
    using percent_of_total by blast
  obtain ns where ns: "uncovered_nums_json ts = Inr ns"
    using uncovered_nums_json_ok [OF assms] by blast
  show ?thesis
    by (simp add: analyze_file_coverage_json_def Let_def q ns)
qed

lemma analyze_html_returns:
  assumes "\<forall>t \<in> set ts. trace_ok t"
    and "fd_path fd = Some segs" and "fd_content fd = Some text" and "fd_traces fd = Some ts"
  shows "\<exists>a. analyze_file_coverage_html fd = Inr a"
proof -
  obtain q where q: "percent_of (int (length (filter (\<lambda>t. hits_json t > 0) ts)))
                       (int (length ts)) = Inr q"
    using percent_of_total by blast
  obtain ns where ns: "uncovered_nums_html ts = Inr ns"
    using uncovered_nums_html_ok [OF assms(1)] by blast
  show ?thesis
    by (simp add: analyze_file_coverage_html_def Let_def q ns assms(2-4)
          count_covered_html_ok [OF assms(1)])
qed

text \<open>
  Claim C6. For every trace list whose entries carry non-negative hit counts, the analyzer
  of either script returns, and if the total \<open>T\<close> is at least 1 then covered \<open>C\<close> plus
  uncovered \<open>U\<close> equals \<open>T\<close>, with \<open>0 \<le> C \<le> T\<close> and \<open>0 \<le> U \<le> T\<close>.
\<close>

theorem analyze_counts_add_up:
  assumes "\<forall>t \<in> set traces. trace_ok t"
    and "fd_path fd = Some segs" and "fd_content fd = Some text"
    and "fd_traces fd = Some traces"
  shows "(\<exists>a. analyze_file_coverage_json p traces = Inr a \<and>
            (1 \<le> total_lines a \<longrightarrow>
               covered_lines a + uncovered_lines a = total_lines a \<and>
               0 \<le> covered_lines a \<and> covered_lines a \<le> total_lines a \<and>
               0 \<le> uncovered_lines a \<and> uncovered_lines a \<le> total_lines a)) \<and>
         (\<exists>b. analyze_file_coverage_html fd = Inr b \<and>
            (1 \<le> total_lines b \<longrightarrow>
               covered_lines b + uncovered_lines b = total_lines b \<and>
               0 \<le> covered_lines b \<and> covered_lines b \<le> total_lines b \<and>
               0 \<le> uncovered_lines b \<and> uncovered_lines b \<le> total_lines b))"
proof
  obtain a where a: "analyze_file_coverage_json p traces = Inr a"
    using analyze_json_returns [OF assms(1)] by blast
  have "length (filter (\<lambda>t. hits_json t > 0) traces) \<le> length traces"
    by (rule length_filter_le)
  with analyze_json_fields(1-3) [OF a]
  have "covered_lines a + uncovered_lines a = total_lines a \<and>
        0 \<le> covered_lines a \<and> covered_lines a \<le> total_lines a \<and>
        0 \<le> uncovered_lines a \<and> uncovered_lines a \<le> total_lines a"
    by simp
  with a show "\<exists>a. analyze_file_coverage_json p traces = Inr a \<and>
            (1 \<le> total_lines a \<longrightarrow>
               covered_lines a + uncovered_lines a = total_lines a \<and>
               0 \<le> covered_lines a \<and> covered_lines a \<le> total_lines a \<and>
               0 \<le> uncovered_lines a \<and> uncovered_lines a \<le> total_lines a)"
    by blast
next
  obtain b where b: "analyze_file_coverage_html fd = Inr b"
    using analyze_html_returns [OF assms] by blast
  have len: "length (filter (\<lambda>t. hits_json t > 0) traces) \<le> length traces"
    by (rule length_filter_le)
  from analyze_html_fields(2) [OF b] assms(4) count_covered_html_ok [OF assms(1)]
  have cov: "covered_lines b = int (length (filter (\<lambda>t. hits_json t > 0) traces))"
    by simp
  from analyze_html_fields(1) [OF b] assms(4)
  have tot: "total_lines b = int (length traces)" by simp
  from cov tot len analyze_html_fields(3) [OF b]
  have "covered_lines b + uncovered_lines b = total_lines b \<and>
        0 \<le> covered_lines b \<and> covered_lines b \<le> total_lines b \<and>
        0 \<le> uncovered_lines b \<and> uncovered_lines b \<le> total_lines b"
    by simp
  with b show "\<exists>b. analyze_file_coverage_html fd = Inr b \<and>
            (1 \<le> total_lines b \<longrightarrow>
               covered_lines b + uncovered_lines b = total_lines b \<and>
               0 \<le> covered_lines b \<and> covered_lines b \<le> total_lines b \<and>
               0 \<le> uncovered_lines b \<and> uncovered_lines b \<le> total_lines b)"
    by blast
qed

theorem analyze_counts_add_up_witness:
  "trace_ok \<lparr>trace_line = Some 1, trace_stats = Some [''Line'' \<mapsto> 1]\<rparr> \<and>
   trace_ok \<lparr>trace_line = Some 2, trace_stats = Some [''Line'' \<mapsto> 0]\<rparr> \<and>
   trace_ok \<lparr>trace_line = Some 3, trace_stats = Some [''Line'' \<mapsto> 5]\<rparr> \<and>
   (case analyze_file_coverage_json ''a.rs''
           [\<lparr>trace_line = Some 1, trace_stats = Some [''Line'' \<mapsto> 1]\<rparr>,
            \<lparr>trace_line = Some 2, trace_stats = Some [''Line'' \<mapsto> 0]\<rparr>,
            \<lparr>trace_line = Some 3, trace_stats = Some [''Line'' \<mapsto> 5]\<rparr>] of
      Inl e \<Rightarrow> False
    | Inr a \<Rightarrow> total_lines a = 3 \<and> covered_lines a = 2 \<and> uncovered_lines a = 1 \<and>
               covered_lines a + uncovered_lines a = total_lines a) \<and>
   (case analyze_file_coverage_html
           \<lparr>fd_path = Some [''src'', ''a.rs''], fd_content = Some ''fn a() {}'',
            fd_traces = Some
              [\<lparr>trace_line = Some 1, trace_stats = Some [''Line'' \<mapsto> 1]\<rparr>,
               \<lparr>trace_line = Some 2, trace_stats = Some [''Line'' \<mapsto> 0]\<rparr>,
               \<lparr>trace_line = Some 3, trace_stats = Some [''Line'' \<mapsto> 5]\<rparr>]\<rparr> of
      Inl e \<Rightarrow> False
    | Inr b \<Rightarrow> total_lines b = 3 \<and> covered_lines b = 2 \<and> uncovered_lines b = 1 \<and>
               covered_lines b + uncovered_lines b = total_lines b)"
  using analyze_counts_add_up
    [of "[\<lparr>trace_line = Some 1, trace_stats = Some [''Line'' \<mapsto> 1]\<rparr>,
          \<lparr>trace_line = Some 2, trace_stats = Some [''Line'' \<mapsto> 0]\<rparr>,
          \<lparr>trace_line = Some 3, trace_stats = Some [''Line'' \<mapsto> 5]\<rparr>]"
        "\<lparr>fd_path = Some [''src'', ''a.rs''], fd_content = Some ''fn a() {}'',
          fd_traces = Some
            [\<lparr>trace_line = Some 1, trace_stats = Some [''Line'' \<mapsto> 1]\<rparr>,
             \<lparr>trace_line = Some 2, trace_stats = Some [''Line'' \<mapsto> 0]\<rparr>,
             \<lparr>trace_line = Some 3, trace_stats = Some [''Line'' \<mapsto> 5]\<rparr>]\<rparr>"
        "[''src'', ''a.rs'']" "''fn a() {}''" "''a.rs''"]
  by (simp add: trace_ok_def analyze_file_coverage_json_def analyze_file_coverage_html_def
        hits_json_def hits_html_def percent_of_def truediv_def)

text \<open>
  Claim C7. For the empty trace list the analyzer of either script returns a coverage
  percentage of exactly 0. The guard \<open>total_lines > 0\<close> fails, so the division, which
  would raise on the divisor 0, is not evaluated and the analyzer returns normally.
\<close>

theorem empty_traces_percent_zero:
  assumes "fd_path fd = Some segs" and "fd_content fd = Some text"
    and "fd_traces fd = None \<or> fd_traces fd = Some []"
  shows "truediv c 0 = Inl ZeroDivisionError \<and> percent_of c 0 = Inr 0 \<and>
         analyze_file_coverage_json p [] =
           Inr \<lparr>path = p, total_lines = 0, covered_lines = 0, uncovered_lines = 0,
                coverage_percent = 0, uncovered_line_numbers = []\<rparr> \<and>
         analyze_file_coverage_html fd =
           Inr \<lparr>path = join ''/'' segs, total_lines = 0, covered_lines = 0,
                uncovered_lines = 0, coverage_percent = 0, uncovered_line_numbers = [],
                content = text\<rparr>"
  using assms
  by (auto simp: truediv_def percent_of_def analyze_file_coverage_json_def
        analyze_file_coverage_html_def)

theorem empty_traces_percent_zero_witness:
  "fd_path \<lparr>fd_path = Some [''src'', ''lib.rs''], fd_content = Some '''', fd_traces = None\<rparr>
     = Some [''src'', ''lib.rs''] \<and>
   analyze_file_coverage_json ''src/lib.rs'' [] =
     Inr \<lparr>path = ''src/lib.rs'', total_lines = 0, covered_lines = 0, uncovered_lines = 0,
          coverage_percent = 0, uncovered_line_numbers = []\<rparr> \<and>
   analyze_file_coverage_html
       \<lparr>fd_path = Some [''src'', ''lib.rs''], fd_content = Some '''', fd_traces = None\<rparr> =
     Inr \<lparr>path = ''src/lib.rs'', total_lines = 0, covered_lines = 0, uncovered_lines = 0,
          coverage_percent = 0, uncovered_line_numbers = [], content = ''''\<rparr>"
  using empty_traces_percent_zero
    [of "\<lparr>fd_path = Some [''src'', ''lib.rs''], fd_content = Some '''', fd_traces = None\<rparr>"
        "[''src'', ''lib.rs'']" "''''" 1 "''src/lib.rs''"]
  by simp

section \<open>Properties of the overall statistics\<close>

lemma overall_statistics_value:
  "overall_statistics ts cs =
     Inr \<lparr>overall_coverage =
            (if 0 < sum_list ts then of_int (sum_list cs) / of_int (sum_list ts) * 100 else 0),
          total_all_lines = sum_list ts, covered_all_lines = sum_list cs,
          uncovered_all_lines = sum_list ts - sum_list cs\<rparr>"
  by (simp add: overall_statistics_def percent_of_def truediv_def Let_def)

lemma analyze_all_json_total_pos:
  "analyze_all_json items = Inr js \<Longrightarrow> \<forall>a \<in> set js. 1 \<le> total_lines a"
proof (induction items arbitrary: js)
  case Nil
  then show ?case by simp
next
  case (Cons item items)
  obtain fp ts where item: "item = (fp, ts)" by (cases item)
  show ?case
  proof (cases "endswith_rs fp \<and> ts \<noteq> []")
    case True
    with Cons.prems item obtain a js' where
      a: "analyze_file_coverage_json fp ts = Inr a" and
      js': "analyze_all_json items = Inr js'" and js: "js = a # js'"
      by (auto split: sum.splits)
    from True analyze_json_fields(1) [OF a] have "1 \<le> total_lines a"
      by (cases ts) simp_all
    with Cons.IH [OF js'] js show ?thesis by simp
  next
    case False
    with Cons.prems item have "analyze_all_json items = Inr js" by auto
    then show ?thesis by (rule Cons.IH)
  qed
qed

lemma sum_list_pos_int:
  fixes xs :: "int list"
  assumes "xs \<noteq> []" and "\<forall>x \<in> set xs. 1 \<le> x"
  shows "0 < sum_list xs"
  using assms
proof (induction xs)
  case Nil
  then show ?case by simp
next
  case (Cons x xs)
  then have "1 \<le> x" by simp
  moreover have "0 \<le> sum_list xs"
    using Cons.prems(2) by (intro sum_list_nonneg) auto
  ultimately show ?case by simp
qed

text \<open>
  Claim C5. The overall coverage percentage of the summary is the sum over all analyzed
  files of the covered lines, divided by the sum over all analyzed files of the total
  lines, times 100 (in the direct-JSON script the sum of the totals is positive whenever
  the block is printed; in the HTML script the percentage is 0 when that sum is 0). It is
  not the arithmetic mean of the per-file percentages: on some report the two numbers
  differ.
\<close>

theorem overall_coverage_ratio_of_sums:
  assumes "print_summary_json items = Inr (Some ov)"
  shows "(\<exists>js. analyze_all_json items = Inr js \<and> 0 < sum_list (map total_lines js) \<and>
            overall_coverage ov =
              of_int (sum_list (map covered_lines js)) /
                of_int (sum_list (map total_lines js)) * 100) \<and>
         (\<exists>ov'. print_summary_html hs = Inr ov' \<and>
            overall_coverage ov' =
              (if 0 < sum_list (map total_lines hs)
               then of_int (sum_list (map covered_lines hs)) /
                      of_int (sum_list (map total_lines hs)) * 100
               else 0)) \<and>
         (\<exists>fds as ov'. analyze_all_html fds = Inr as \<and> print_summary_html as = Inr ov' \<and>
            overall_coverage ov' \<noteq> mean_of_percentages (map coverage_percent as))"
proof (intro conjI)
  from assms obtain js where js: "analyze_all_json items = Inr js" and ne: "js \<noteq> []"
    and ov: "overall_statistics (map total_lines js) (map covered_lines js) = Inr ov"
    by (auto simp: print_summary_json_def split: sum.splits if_splits)
  from analyze_all_json_total_pos [OF js] ne
  have pos: "0 < sum_list (map total_lines js)"
    by (intro sum_list_pos_int) auto
  from ov pos have "overall_coverage ov =
      of_int (sum_list (map covered_lines js)) / of_int (sum_list (map total_lines js)) * 100"
    by (auto simp: overall_statistics_value)
  with js pos show "\<exists>js. analyze_all_json items = Inr js \<and>
      0 < sum_list (map total_lines js) \<and>
      overall_coverage ov =
        of_int (sum_list (map covered_lines js)) / of_int (sum_list (map total_lines js)) * 100"
    by blast
next
  show "\<exists>ov'. print_summary_html hs = Inr ov' \<and>
      overall_coverage ov' =
        (if 0 < sum_list (map total_lines hs)
         then of_int (sum_list (map covered_lines hs)) /
                of_int (sum_list (map total_lines hs)) * 100
         else 0)"
    by (simp add: print_summary_html_def overall_statistics_value)
next
  let ?f1 = "\<lparr>fd_path = Some [''a.rs''], fd_content = Some '''',
               fd_traces = Some [mk_trace 1 1]\<rparr>"
  let ?f2 = "\<lparr>fd_path = Some [''b.rs''], fd_content = Some '''',
               fd_traces = Some [mk_trace 1 0, mk_trace 2 0, mk_trace 3 0]\<rparr>"
  let ?a1 = "\<lparr>path = ''a.rs'', total_lines = 1, covered_lines = 1, uncovered_lines = 0,
               coverage_percent = 100, uncovered_line_numbers = [], content = ''''\<rparr>"
  let ?a2 = "\<lparr>path = ''b.rs'', total_lines = 3, covered_lines = 0, uncovered_lines = 3,
               coverage_percent = 0, uncovered_line_numbers = [1, 2, 3], content = ''''\<rparr>"
  have "analyze_all_html [?f1, ?f2] = Inr [?a1, ?a2]"
    by (simp add: analyze_file_coverage_html_def mk_trace_def hits_html_def percent_of_def
          truediv_def)
  moreover have "print_summary_html [?a1, ?a2] =
      Inr \<lparr>overall_coverage = 25, total_all_lines = 4, covered_all_lines = 1,
           uncovered_all_lines = 3\<rparr>"
    by (simp add: print_summary_html_def overall_statistics_value)
  moreover have "mean_of_percentages (map coverage_percent [?a1, ?a2]) = 50"
    by (simp add: mean_of_percentages_def)
  ultimately show "\<exists>fds as ov'. analyze_all_html fds = Inr as \<and>
      print_summary_html as = Inr ov' \<and>
      overall_coverage ov' \<noteq> mean_of_percentages (map coverage_percent as)"
    by (intro exI [of _ "[?f1, ?f2]"] exI [of _ "[?a1, ?a2]"]
          exI [of _ "\<lparr>overall_coverage = 25, total_all_lines = 4, covered_all_lines = 1,
                      uncovered_all_lines = 3\<rparr>"]) simp
qed

text \<open>
  A report with one fully covered one-line file and one uncovered three-line file (and a
  file that is not analyzed): the overall percentage is 25, the mean of the per-file
  percentages 100 and 0 is 50.
\<close>

theorem overall_coverage_ratio_of_sums_witness:
  "print_summary_json
       [(''a.rs'', [mk_trace 1 1]),
        (''b.rs'', [mk_trace 1 0, mk_trace 2 0, mk_trace 3 0]),
        (''notes.txt'', [mk_trace 1 1])] =
     Inr (Some \<lparr>overall_coverage = 25, total_all_lines = 4, covered_all_lines = 1,
                uncovered_all_lines = 3\<rparr>) \<and>
   (case analyze_all_json
           [(''a.rs'', [mk_trace 1 1]),
            (''b.rs'', [mk_trace 1 0, mk_trace 2 0, mk_trace 3 0]),
            (''notes.txt'', [mk_trace 1 1])] of
      Inl e \<Rightarrow> False
    | Inr js \<Rightarrow> map coverage_percent js = [100, 0] \<and>
                mean_of_percentages (map coverage_percent js) = 50 \<and>
                (25 :: rat) = of_int (sum_list (map covered_lines js)) /
                                of_int (sum_list (map total_lines js)) * 100)"
  using overall_coverage_ratio_of_sums
    [of "[(''a.rs'', [mk_trace 1 1]),
          (''b.rs'', [mk_trace 1 0, mk_trace 2 0, mk_trace 3 0]),
          (''notes.txt'', [mk_trace 1 1])]"
        "\<lparr>overall_coverage = 25, total_all_lines = 4, covered_all_lines = 1,
          uncovered_all_lines = 3\<rparr>" "[]"]
  by (simp add: print_summary_json_def endswith_rs_def analyze_file_coverage_json_def
        overall_statistics_def percent_of_def truediv_def hits_json_def mk_trace_def
        mean_of_percentages_def)

section \<open>Properties of the attribution heuristic\<close>

lemma set_range_down: "set (range_down a b) = {i. b < i \<and> i \<le> a}"
  by (auto simp: range_down_def)

lemma range_down_pos: "i \<in> set (range_down (max 0 a) (max 0 b)) \<Longrightarrow> 0 < i"
  by (auto simp: set_range_down)

lemma scan_lines_no_match:
  assumes "\<forall>i \<in> set is. i < int (length lines) \<longrightarrow>
             fn_search (lines ! nat i) = None \<and> impl_search (lines ! nat i) = None"
  shows "scan_lines impl_search lines is = None"
  using assms by (induction "is") simp_all

lemma scan_lines_first_line:
  assumes "\<forall>i \<in> set is. 0 < i"
  shows "scan_lines impl_search lines is = scan_lines impl_search ([] # tl lines) is"
  using assms
proof (induction "is")
  case Nil
  then show ?case by simp
next
  case (Cons i "is")
  then have pos: "0 < i" and rest: "\<forall>j \<in> set is. 0 < j" by simp_all
  from pos obtain k where k: "nat i = Suc k"
    by (metis Suc_pred zero_less_nat_eq)
  show ?case
  proof (cases lines)
    case Nil
    with pos Cons.IH [OF rest] show ?thesis by simp
  next
    case (Cons l ls)
    with pos k Cons.IH [OF rest] show ?thesis by (simp split: option.split)
  qed
qed

lemma scan_lines_tl_cong:
  assumes "\<forall>i \<in> set is. 0 < i" and "tl lines = tl lines'"
  shows "scan_lines impl_search lines is = scan_lines impl_search lines' is"
  using scan_lines_first_line [OF assms(1), of impl_search lines]
    scan_lines_first_line [OF assms(1), of impl_search lines'] assms(2)
  by simp

lemma range_down_empty_at_one: "range_down 0 0 = []"
  by (simp add: range_down_def)

text \<open>
  Claim C9. In both scripts, attribution for target line number 1 scans no line at all
  and returns \<open>unknown\<close> whatever the file contains (in the direct-JSON script the only
  other outcome, for any file system, is that the existence check raises before a line
  is looked at). More generally index 0, the first line of the file, is not among the
  scanned indices for any target line number, so the label does not depend on the first
  line: two files that agree from the second line on get the same label at every target
  line.
\<close>

theorem first_line_never_scanned:
  assumes "fs p = Readable lines" and "fs' p = Readable lines'" and "tl lines = tl lines'"
    and "tl (split_lines text) = tl (split_lines text')"
  shows "extract_function_at_line_json fs0 p0 1 =
           (if fs0 p0 = StatFails then Inl OSError else Inr ''unknown'') \<and>
         extract_function_at_line_json fs p 1 = Inr ''unknown'' \<and>
         extract_function_at_line_html text0 1 = ''unknown'' \<and>
         0 \<notin> set (range_down (max 0 (n - 1)) (max 0 (n - 30))) \<and>
         0 \<notin> set (range_down (max 0 (n - 1)) (max 0 (n - 20))) \<and>
         extract_function_at_line_json fs p n = extract_function_at_line_json fs' p n \<and>
         extract_function_at_line_html text n = extract_function_at_line_html text' n"
proof (intro conjI)
  show "extract_function_at_line_json fs0 p0 1 =
          (if fs0 p0 = StatFails then Inl OSError else Inr ''unknown'')"
    by (cases "fs0 p0")
      (simp_all add: extract_function_at_line_json_def extract_try_block_def path_exists_def
         readlines_def range_down_empty_at_one)
  show "extract_function_at_line_json fs p 1 = Inr ''unknown''"
    by (simp add: extract_function_at_line_json_def extract_try_block_def path_exists_def
          readlines_def range_down_empty_at_one assms(1))
  show "extract_function_at_line_html text0 1 = ''unknown''"
    by (simp add: extract_function_at_line_html_def range_down_empty_at_one)
  show "0 \<notin> set (range_down (max 0 (n - 1)) (max 0 (n - 30)))"
    using range_down_pos by blast
  show "0 \<notin> set (range_down (max 0 (n - 1)) (max 0 (n - 20)))"
    using range_down_pos by blast
  have "scan_lines impl_search_json lines (range_down (max 0 (n - 1)) (max 0 (n - 30))) =
        scan_lines impl_search_json lines' (range_down (max 0 (n - 1)) (max 0 (n - 30)))"
    using range_down_pos assms(3) by (intro scan_lines_tl_cong) blast+
  then show "extract_function_at_line_json fs p n = extract_function_at_line_json fs' p n"
    by (simp add: extract_function_at_line_json_def extract_try_block_def path_exists_def
          readlines_def assms(1,2))
  have "scan_lines impl_search_html (split_lines text)
          (range_down (max 0 (n - 1)) (max 0 (n - 20))) =
        scan_lines impl_search_html (split_lines text')
          (range_down (max 0 (n - 1)) (max 0 (n - 20)))"
    using range_down_pos assms(4) by (intro scan_lines_tl_cong) blast+
  then show "extract_function_at_line_html text n = extract_function_at_line_html text' n"
    by (simp add: extract_function_at_line_html_def)
qed

text \<open>
  A file whose first line declares \<open>foo\<close>: the label is \<open>unknown\<close> at target line 1, and
  at target line 2 it is the same as for a file whose first line is a comment.
\<close>

theorem first_line_never_scanned_witness:
  "fn_search ''fn foo() {'' = Some ''foo'' \<and>
   tl (split_lines (''fn foo() {'' @ [CHR 0x0A] @ ''let x = 1;'')) =
     tl (split_lines (''// note'' @ [CHR 0x0A] @ ''let x = 1;'')) \<and>
   extract_function_at_line_html (''fn foo() {'' @ [CHR 0x0A] @ ''let x = 1;'') 1 = ''unknown'' \<and>
   extract_function_at_line_html (''fn foo() {'' @ [CHR 0x0A] @ ''let x = 1;'') 2 =
     extract_function_at_line_html (''// note'' @ [CHR 0x0A] @ ''let x = 1;'') 2 \<and>
   extract_function_at_line_html (''// note'' @ [CHR 0x0A] @ ''let x = 1;'') 2 = ''unknown'' \<and>
   extract_function_at_line_json (\<lambda>_. Readable [''fn foo() {'', ''let x = 1;'']) ''a.rs'' 1 =
     Inr ''unknown'' \<and>
   extract_function_at_line_json (\<lambda>_. Readable [''fn foo() {'', ''let x = 1;'']) ''a.rs'' 2 =
     extract_function_at_line_json (\<lambda>_. Readable [''// note'', ''let x = 1;'']) ''a.rs'' 2"
proof -
  have f: "fn_search ''fn foo() {'' = Some ''foo''" by code_simp
  have t: "tl (split_lines (''fn foo() {'' @ [CHR 0x0A] @ ''let x = 1;'')) =
           tl (split_lines (''// note'' @ [CHR 0x0A] @ ''let x = 1;''))"
    by simp
  have u: "extract_function_at_line_html (''// note'' @ [CHR 0x0A] @ ''let x = 1;'') 2 =
           ''unknown''"
    by code_simp
  from first_line_never_scanned
    [of "\<lambda>_. Readable [''fn foo() {'', ''let x = 1;'']" "''a.rs''"
        "[''fn foo() {'', ''let x = 1;'']"
        "\<lambda>_. Readable [''// note'', ''let x = 1;'']" "[''// note'', ''let x = 1;'']"
        "''fn foo() {'' @ [CHR 0x0A] @ ''let x = 1;''"
        "''// note'' @ [CHR 0x0A] @ ''let x = 1;''"
        "\<lambda>_. Readable [''fn foo() {'', ''let x = 1;'']" "''a.rs''"
        "''fn foo() {'' @ [CHR 0x0A] @ ''let x = 1;''" 2, OF refl refl _ t]
  show ?thesis using f t u by simp
qed

lemma extract_json_failure:
  "fs p = Missing \<or> fs p = Unreadable \<Longrightarrow>
   extract_function_at_line_json fs p n = Inr ''unknown''"
  by (auto simp: extract_function_at_line_json_def extract_try_block_def path_exists_def
        readlines_def)

lemma extract_json_stat_failure:
  "fs p = StatFails \<Longrightarrow> extract_function_at_line_json fs p n = Inl OSError"
  by (simp add: extract_function_at_line_json_def path_exists_def)

lemma extract_json_returns:
  "fs p \<noteq> StatFails \<Longrightarrow> \<exists>label. extract_function_at_line_json fs p n = Inr label"
  by (cases "fs p")
    (auto simp: extract_function_at_line_json_def path_exists_def
       split: sum.splits option.splits)

lemma group_loop_same_key:
  "\<forall>n \<in> set ns. extract_function_at_line_json fs p n = Inr k \<Longrightarrow>
   group_loop fs p ns [(k, vs)] = Inr [(k, vs @ ns)]"
  by (induction ns arbitrary: vs) simp_all

lemma group_constant_label:
  assumes "\<forall>n \<in> set ls. extract_function_at_line_json fs p n = Inr k"
  shows "group_uncovered_by_function fs p ls = Inr (if ls = [] then [] else [(k, take 50 ls)])"
proof (cases "take 50 ls")
  case Nil
  then show ?thesis by (simp add: group_uncovered_by_function_def)
next
  case (Cons x xs)
  then have ne: "ls \<noteq> []" by auto
  have all: "\<forall>n \<in> set (x # xs). extract_function_at_line_json fs p n = Inr k"
    using assms Cons by (metis in_set_takeD)
  then have "group_loop fs p xs [(k, [x])] = Inr [(k, [x] @ xs)]"
    by (intro group_loop_same_key) simp
  with all Cons ne show ?thesis
    by (simp add: group_uncovered_by_function_def)
qed

lemma group_loop_stat_failure:
  "fs p = StatFails \<Longrightarrow> group_loop fs p (n # ns) d = Inl OSError"
  by (simp add: extract_json_stat_failure)

text \<open>
  Claim C8 says that in the direct-JSON script a source file that does not exist, or any
  exception while reading or scanning it, gives the label \<open>unknown\<close>, and that the failure
  never leaves the function. The code does so for a missing file and for a file whose
  reading raises. It does not when the existence check itself raises: the check stands
  before the \<open>try\<close> statement, so its \<open>OSError\<close> leaves \<open>extract_function_at_line\<close> and the
  grouping loop, neither of which has a handler. Here the file system cannot read the
  status of a path of more than 255 characters and has no file at any other path; the
  report names a path of 303 characters.
\<close>

theorem existence_check_failure_propagates:
  "path_exists (\<lambda>q. if 255 < length q then StatFails else Missing)
     (replicate 300 (CHR ''a'') @ ''.rs'') = Inl OSError \<and>
   extract_function_at_line_json (\<lambda>q. if 255 < length q then StatFails else Missing)
     (replicate 300 (CHR ''a'') @ ''.rs'') 1 = Inl OSError \<and>
   group_uncovered_by_function (\<lambda>q. if 255 < length q then StatFails else Missing)
     (replicate 300 (CHR ''a'') @ ''.rs'') [1] = Inl OSError \<and>
   extract_function_at_line_json (\<lambda>q. if 255 < length q then StatFails else Missing)
     ''src/gone.rs'' 1 = Inr ''unknown'' \<and>
   group_uncovered_by_function (\<lambda>q. if 255 < length q then StatFails else Missing)
     ''src/gone.rs'' [1] = Inr [(''unknown'', [1])] \<and>
   extract_function_at_line_json (\<lambda>_. Unreadable) ''src/locked.rs'' 1 = Inr ''unknown''"
  by (simp add: path_exists_def extract_function_at_line_json_def extract_try_block_def
        readlines_def group_uncovered_by_function_def)

text \<open>
  Claim C2, as stated: the label is \<open>unknown\<close> when none of the 30 (direct-JSON script) or
  20 (HTML script) lines before the target line matches a declaration pattern. It fails
  for a two-line file whose second line declares \<open>foo\<close>, at target line 2: the only prior
  line is blank, but the scan starts at index \<open>line_num - 1\<close>, which is the target line
  itself, and returns \<open>foo\<close>.
\<close>

theorem prior_window_counterexample:
  "prior_lines 30 [[CHR 0x0A], ''fn foo() {'' @ [CHR 0x0A]] 2 = [[CHR 0x0A]] \<and>
   \<not> declares_json [CHR 0x0A] \<and>
   extract_function_at_line_json
     (\<lambda>_. Readable [[CHR 0x0A], ''fn foo() {'' @ [CHR 0x0A]]) ''src/lib.rs'' 2 = Inr ''foo'' \<and>
   prior_lines 20 (split_lines ([CHR 0x0A] @ ''fn foo() {'')) 2 = [''''] \<and>
   \<not> declares_html '''' \<and>
   extract_function_at_line_html ([CHR 0x0A] @ ''fn foo() {'') 2 = ''foo''"
  by code_simp

text \<open>
  Claim C2, amended. The label is \<open>unknown\<close> when no line of the window that is scanned
  matches a declaration pattern, whatever the lines further back contain. The window
  is, in indices from 0, above \<open>max(0, N - 30)\<close> (direct-JSON script) or \<open>max(0, N - 20)\<close>
  (HTML script) and up to \<open>N - 1\<close>: the target line itself and the 28 (respectively 18)
  lines before it, never the first line of the file.
\<close>

theorem unknown_when_window_has_no_declaration:
  assumes "fs p = Readable lines"
    and "\<forall>i. max 0 (n - 30) < i \<and> i \<le> n - 1 \<and> i < int (length lines) \<longrightarrow>
           \<not> declares_json (lines ! nat i)"
    and "\<forall>i. max 0 (m - 20) < i \<and> i \<le> m - 1 \<and> i < int (length (split_lines text)) \<longrightarrow>
           \<not> declares_html (split_lines text ! nat i)"
  shows "extract_function_at_line_json fs p n = Inr ''unknown'' \<and>
         extract_function_at_line_html text m = ''unknown''"
proof
  have "scan_lines impl_search_json lines (range_down (max 0 (n - 1)) (max 0 (n - 30))) = None"
    using assms(2) by (intro scan_lines_no_match) (auto simp: set_range_down declares_json_def)
  then show "extract_function_at_line_json fs p n = Inr ''unknown''"
    by (simp add: extract_function_at_line_json_def extract_try_block_def path_exists_def
          readlines_def assms(1))
next
  have "scan_lines impl_search_html (split_lines text)
          (range_down (max 0 (m - 1)) (max 0 (m - 20))) = None"
    using assms(3) by (intro scan_lines_no_match) (auto simp: set_range_down declares_html_def)
  then show "extract_function_at_line_html text m = ''unknown''"
    by (simp add: extract_function_at_line_html_def)
qed

text \<open>
  A file that declares \<open>far\<close> on its first line, followed by blank lines only: the
  declaration is further back than the window of the last line, whose label is
  \<open>unknown\<close>.
\<close>

theorem unknown_when_window_has_no_declaration_witness:
  "fn_search (''fn far() {'' @ [CHR 0x0A]) = Some ''far'' \<and>
   extract_function_at_line_json
     (\<lambda>_. Readable ((''fn far() {'' @ [CHR 0x0A]) # replicate 31 [CHR 0x0A])) ''src/lib.rs'' 32
     = Inr ''unknown'' \<and>
   fn_search ''fn far() {'' = Some ''far'' \<and>
   split_lines (''fn far() {'' @ replicate 21 (CHR 0x0A)) = ''fn far() {'' # replicate 21 '''' \<and>
   extract_function_at_line_html (''fn far() {'' @ replicate 21 (CHR 0x0A)) 22 = ''unknown''"
proof -
  let ?lines = "(''fn far() {'' @ [CHR 0x0A]) # replicate 31 [CHR 0x0A]"
  let ?text = "''fn far() {'' @ replicate 21 (CHR 0x0A)"
  have f1: "fn_search (''fn far() {'' @ [CHR 0x0A]) = Some ''far''" by code_simp
  have f2: "fn_search ''fn far() {'' = Some ''far''" by code_simp
  have sl: "split_lines ?text = ''fn far() {'' # replicate 21 ''''" by code_simp
  have b1: "\<not> declares_json [CHR 0x0A]" by code_simp
  have b2: "\<not> declares_html ''''" by code_simp
  have h1: "\<forall>i. max 0 (32 - 30) < i \<and> i \<le> 32 - 1 \<and> i < int (length ?lines) \<longrightarrow>
              \<not> declares_json (?lines ! nat i)"
  proof (intro allI impI)
    fix i :: int
    assume "max 0 (32 - 30) < i \<and> i \<le> 32 - 1 \<and> i < int (length ?lines)"
    then have "0 < nat i" and "nat i - 1 < 31" by auto
    then have "?lines ! nat i = [CHR 0x0A]" by (simp add: nth_Cons')
    with b1 show "\<not> declares_json (?lines ! nat i)" by simp
  qed
  have h2: "\<forall>i. max 0 (22 - 20) < i \<and> i \<le> 22 - 1 \<and> i < int (length (split_lines ?text)) \<longrightarrow>
              \<not> declares_html (split_lines ?text ! nat i)"
  proof (intro allI impI)
    fix i :: int
    assume "max 0 (22 - 20) < i \<and> i \<le> 22 - 1 \<and> i < int (length (split_lines ?text))"
    then have "0 < nat i" and "nat i - 1 < 21" by auto
    then have "(''fn far() {'' # replicate 21 '''') ! nat i = ''''" by (simp add: nth_Cons')
    then have "split_lines ?text ! nat i = ''''" by (simp only: sl)
    with b2 show "\<not> declares_html (split_lines ?text ! nat i)" by metis
  qed
  from unknown_when_window_has_no_declaration
         [of "\<lambda>_. Readable ?lines" "''src/lib.rs''" ?lines 32 22 ?text, OF refl h1 h2]
  have r: "extract_function_at_line_json (\<lambda>_. Readable ?lines) ''src/lib.rs'' 32 =
             Inr ''unknown'' \<and>
           extract_function_at_line_html ?text 22 = ''unknown''" .
  from f1 f2 sl r show ?thesis by blast
qed

section \<open>Properties of the grouping of uncovered lines\<close>

text \<open>Set-theoretic steps of the loop invariant, for an arbitrary excluded label \<open>u\<close>.\<close>

lemma new_label_distinct:
  assumes "snd ` set news = f ` set rest - insert (f n) seen - {u}"
    and "distinct (map snd news)"
  shows "distinct (map snd ((n, f n) # news))"
  using assms by auto

lemma new_label_image:
  assumes "snd ` set news = f ` set rest - insert (f n) seen - {u}"
    and "f n \<notin> seen \<and> f n \<noteq> u"
  shows "snd ` set ((n, f n) # news) = f ` set (n # rest) - seen - {u}"
  using assms by auto

lemma old_label_image:
  assumes "snd ` set news = f ` set rest - seen - {u}"
    and "\<not> (f n \<notin> seen \<and> f n \<noteq> u)"
  shows "snd ` set news = f ` set (n # rest) - seen - {u}"
  using assms by auto

lemma label_not_excluded:
  assumes "snd ` set news = A - seen - {u}" and "(k, g) \<in> set news"
  shows "g \<notin> seen \<and> g \<noteq> u"
proof -
  from assms(2) have "g \<in> snd ` set news" by force
  with assms(1) show ?thesis by simp
qed

lemma find_uncovered_loop_appends:
  "\<exists>news. fst (find_uncovered_loop text ls (funcs, seen)) = funcs @ news \<and>
      distinct (map snd news) \<and>
      snd ` set news = extract_function_at_line_html text ` set ls - seen - {''unknown''} \<and>
      (\<forall>(k, g) \<in> set news.
         find (\<lambda>m. extract_function_at_line_html text m = g) ls = Some k)"
proof (induction ls arbitrary: funcs seen)
  case Nil
  then show ?case by simp
next
  case (Cons n rest)
  let ?f = "extract_function_at_line_html text"
  show ?case
  proof (cases "?f n \<notin> seen \<and> ?f n \<noteq> ''unknown''")
    case True
    obtain news where
      eq: "fst (find_uncovered_loop text rest (funcs @ [(n, ?f n)], insert (?f n) seen)) =
             (funcs @ [(n, ?f n)]) @ news" and
      dist: "distinct (map snd news)" and
      labels: "snd ` set news = ?f ` set rest - insert (?f n) seen - {''unknown''}" and
      first: "\<forall>(k, g) \<in> set news. find (\<lambda>m. ?f m = g) rest = Some k"
      using Cons.IH [of "funcs @ [(n, ?f n)]" "insert (?f n) seen"] by (elim exE conjE)
    let ?news = "(n, ?f n) # news"
    have r1: "fst (find_uncovered_loop text (n # rest) (funcs, seen)) = funcs @ ?news"
      using True eq by (simp add: Let_def)
    have r2: "distinct (map snd ?news)"
      using labels dist by (rule new_label_distinct)
    have r3: "snd ` set ?news = ?f ` set (n # rest) - seen - {''unknown''}"
      using labels True by (rule new_label_image)
    have r4: "\<forall>(k, g) \<in> set ?news. find (\<lambda>m. ?f m = g) (n # rest) = Some k"
    proof -
      have "find (\<lambda>m. ?f m = g) (n # rest) = Some k" if "(k, g) \<in> set news" for k g
      proof -
        from label_not_excluded [OF labels that] have "g \<noteq> ?f n" by blast
        moreover from that first have "find (\<lambda>m. ?f m = g) rest = Some k" by blast
        ultimately show ?thesis by simp
      qed
      moreover have "find (\<lambda>m. ?f m = ?f n) (n # rest) = Some n" by simp
      ultimately show ?thesis by (auto simp del: find.simps)
    qed
    show ?thesis
      by (rule exI [of _ ?news]) (intro conjI r1 r2 r3 r4)
  next
    case False
    obtain news where
      eq: "fst (find_uncovered_loop text rest (funcs, seen)) = funcs @ news" and
      dist: "distinct (map snd news)" and
      labels: "snd ` set news = ?f ` set rest - seen - {''unknown''}" and
      first: "\<forall>(k, g) \<in> set news. find (\<lambda>m. ?f m = g) rest = Some k"
      using Cons.IH [of funcs seen] by (elim exE conjE)
    have r1: "fst (find_uncovered_loop text (n # rest) (funcs, seen)) = funcs @ news"
      using False eq by (auto simp: Let_def)
    have r3: "snd ` set news = ?f ` set (n # rest) - seen - {''unknown''}"
      using labels False by (rule old_label_image)
    have r4: "\<forall>(k, g) \<in> set news. find (\<lambda>m. ?f m = g) (n # rest) = Some k"
    proof -
      have "find (\<lambda>m. ?f m = g) (n # rest) = Some k" if "(k, g) \<in> set news" for k g
      proof -
        from label_not_excluded [OF labels that] False have "g \<noteq> ?f n" by blast
        moreover from that first have "find (\<lambda>m. ?f m = g) rest = Some k" by blast
        ultimately show ?thesis by simp
      qed
      then show ?thesis by (auto simp del: find.simps)
    qed
    show ?thesis
      by (rule exI [of _ news]) (intro conjI r1 dist r3 r4)
  qed
qed

lemma map_of_dd_append:
  "map_of (dd_append k v d) k' =
     (if k' = k then Some ((case map_of d k of None \<Rightarrow> [] | Some vs \<Rightarrow> vs) @ [v])
      else map_of d k')"
  by (induction d) auto

lemma map_of_group_loop:
  "group_loop fs p ns d0 = Inr g \<Longrightarrow>
   map_of g k =
     (if filter (\<lambda>n. extract_function_at_line_json fs p n = Inr k) ns = [] then map_of d0 k
      else Some ((case map_of d0 k of None \<Rightarrow> [] | Some vs \<Rightarrow> vs) @
                 filter (\<lambda>n. extract_function_at_line_json fs p n = Inr k) ns))"
proof (induction ns arbitrary: d0)
  case Nil
  then show ?case by simp
next
  case (Cons n ns)
  from Cons.prems obtain label where
    label: "extract_function_at_line_json fs p n = Inr label" and
    rest: "group_loop fs p ns (dd_append label n d0) = Inr g"
    by (auto split: sum.splits)
  show ?case
    using Cons.IH [OF rest] label by (auto simp: map_of_dd_append)
qed

lemma map_of_group:
  "group_uncovered_by_function fs p ls = Inr g \<Longrightarrow>
   map_of g k =
     (if filter (\<lambda>n. extract_function_at_line_json fs p n = Inr k) (take 50 ls) = [] then None
      else Some (filter (\<lambda>n. extract_function_at_line_json fs p n = Inr k) (take 50 ls)))"
  unfolding group_uncovered_by_function_def
  by (drule map_of_group_loop [where k = k]) simp

lemma group_loop_returns:
  "fs p \<noteq> StatFails \<Longrightarrow> \<exists>g. group_loop fs p ns d = Inr g"
proof (induction ns arbitrary: d)
  case Nil
  then show ?case by simp
next
  case (Cons n ns)
  from Cons.prems extract_json_returns [of fs p n] obtain label where
    "extract_function_at_line_json fs p n = Inr label" by blast
  with Cons.IH [OF Cons.prems] show ?case by simp
qed

lemma group_returns_iff:
  "(\<exists>g. group_uncovered_by_function fs p ls = Inr g) = (fs p \<noteq> StatFails \<or> ls = [])"
proof (cases "fs p = StatFails")
  case False
  then show ?thesis
    using group_loop_returns [of fs p] by (simp add: group_uncovered_by_function_def)
next
  case True
  show ?thesis
  proof (cases ls)
    case Nil
    then show ?thesis by (simp add: group_uncovered_by_function_def)
  next
    case (Cons n ns)
    then have "take 50 ls = n # take 49 ns" by (simp add: take_Cons')
    with True Cons show ?thesis
      by (simp add: group_uncovered_by_function_def extract_json_stat_failure)
  qed
qed

text \<open>
  Claim C10, as stated: the direct-JSON script groups the uncovered lines whose attribution
  fails under the key \<open>unknown\<close> with all their line numbers. It fails for a file with 51
  uncovered lines that cannot be attributed (here the file is missing): the grouping
  processes \<open>uncovered_lines[:50]\<close> only, so line 51 is not under the key.
\<close>

theorem group_unknown_counterexample:
  "extract_function_at_line_json (\<lambda>_. Missing) ''src/gone.rs'' 51 = Inr ''unknown'' \<and>
   51 \<in> set [1..51] \<and>
   group_uncovered_by_function (\<lambda>_. Missing) ''src/gone.rs'' [1..51] =
     Inr [(''unknown'', [1..50])] \<and>
   51 \<notin> set [1..50]"
proof -
  have "\<forall>n \<in> set [1..51].
          extract_function_at_line_json (\<lambda>_. Missing) ''src/gone.rs'' n = Inr ''unknown''"
    by (simp add: extract_json_failure)
  then have "group_uncovered_by_function (\<lambda>_. Missing) ''src/gone.rs'' [1..51] =
             Inr (if [1..51] = [] then [] else [(''unknown'', take 50 [1..51])])"
    by (rule group_constant_label)
  moreover have "take 50 [1..51] = [1..50]" by code_simp
  moreover have "[1..51] \<noteq> ([] :: int list)" by code_simp
  ultimately have "group_uncovered_by_function (\<lambda>_. Missing) ''src/gone.rs'' [1..51] =
                   Inr [(''unknown'', [1..50])]"
    by (simp only: if_False)
  then show ?thesis by (simp add: extract_json_failure)
qed

text \<open>
  Claim C10, amended. In the HTML script, \<open>find_uncovered_functions\<close> returns each label
  at most once, paired with the first uncovered line attributed to it, and never
  includes the label \<open>unknown\<close>: every other label of an uncovered line is returned, and
  uncovered lines whose attribution gives \<open>unknown\<close> are dropped from the returned list.
  The direct-JSON script instead groups, among the first 50 uncovered lines, those whose
  attribution gives \<open>unknown\<close> under the key \<open>unknown\<close> with all their line numbers, in
  order (the key is absent when there is none). Its grouping returns unless there are
  uncovered lines and the existence check of the path raises.
\<close>

theorem find_uncovered_functions_first_lines:
  "distinct (map snd (find_uncovered_functions a)) \<and>
   ''unknown'' \<notin> snd ` set (find_uncovered_functions a) \<and>
   (\<forall>(n, f) \<in> set (find_uncovered_functions a).
      find (\<lambda>m. extract_function_at_line_html (content a) m = f) (uncovered_line_numbers a)
        = Some n) \<and>
   snd ` set (find_uncovered_functions a) =
     extract_function_at_line_html (content a) ` set (uncovered_line_numbers a) - {''unknown''} \<and>
   (\<forall>n \<in> set (uncovered_line_numbers a).
      extract_function_at_line_html (content a) n = ''unknown'' \<longrightarrow>
        n \<notin> fst ` set (find_uncovered_functions a)) \<and>
   (\<exists>g. group_uncovered_by_function fs p ls = Inr g) = (fs p \<noteq> StatFails \<or> ls = []) \<and>
   (\<forall>g. group_uncovered_by_function fs p ls = Inr g \<longrightarrow>
      map_of g ''unknown'' =
        (if filter (\<lambda>n. extract_function_at_line_json fs p n = Inr ''unknown'') (take 50 ls) = []
         then None
         else Some (filter (\<lambda>n. extract_function_at_line_json fs p n = Inr ''unknown'')
                      (take 50 ls))))"
proof -
  let ?f = "extract_function_at_line_html (content a)"
  let ?ls = "uncovered_line_numbers a"
  let ?r = "find_uncovered_functions a"
  obtain news where
    eq: "fst (find_uncovered_loop (content a) ?ls ([], {})) = [] @ news" and
    dist: "distinct (map snd news)" and
    labels: "snd ` set news = ?f ` set ?ls - {} - {''unknown''}" and
    first: "\<forall>(k, g) \<in> set news. find (\<lambda>m. ?f m = g) ?ls = Some k"
    using find_uncovered_loop_appends [of "content a" ?ls "[]" "{}"] by (elim exE conjE)
  from eq have r: "?r = news" by (simp add: find_uncovered_functions_def)
  have c1: "distinct (map snd ?r)" using dist r by simp
  have c4: "snd ` set ?r = ?f ` set ?ls - {''unknown''}" using labels r by simp
  have c2: "''unknown'' \<notin> snd ` set ?r" unfolding c4 by blast
  have c3: "\<forall>(n, f) \<in> set ?r. find (\<lambda>m. ?f m = f) ?ls = Some n" using first r by simp
  have c5: "\<forall>n \<in> set ?ls. ?f n = ''unknown'' \<longrightarrow> n \<notin> fst ` set ?r"
  proof (intro ballI impI notI)
    fix n assume u: "?f n = ''unknown''" and "n \<in> fst ` set ?r"
    then obtain g where m: "(n, g) \<in> set ?r" by force
    with c3 have "find (\<lambda>m. ?f m = g) ?ls = Some n" by blast
    then have "?f n = g" by (auto simp: find_Some_iff)
    moreover from m have "g \<in> snd ` set ?r" by force
    ultimately show False using c2 u by metis
  qed
  have c7: "\<forall>g. group_uncovered_by_function fs p ls = Inr g \<longrightarrow>
      map_of g ''unknown'' =
        (if filter (\<lambda>n. extract_function_at_line_json fs p n = Inr ''unknown'') (take 50 ls) = []
         then None
         else Some (filter (\<lambda>n. extract_function_at_line_json fs p n = Inr ''unknown'')
                      (take 50 ls)))"
    using map_of_group by blast
  show ?thesis
    by (intro conjI c1 c2 c3 c4 c5 group_returns_iff c7)
qed

text \<open>
  A file in which line 2 precedes every declaration that can be scanned, lines 4 and 5
  follow the declaration of \<open>alpha\<close> and line 7 that of \<open>beta\<close>.
\<close>

theorem find_uncovered_functions_first_lines_witness:
  "extract_function_at_line_html
     (''use std::fmt;'' @ [CHR 0x0A] @ ''const K: u32 = 1;'' @ [CHR 0x0A] @
      ''fn alpha() {'' @ [CHR 0x0A] @ ''    let x = K;'' @ [CHR 0x0A] @ ''}'' @ [CHR 0x0A] @
      ''fn beta() {'' @ [CHR 0x0A] @ ''    let y = K;'' @ [CHR 0x0A] @ ''}'') 2 = ''unknown'' \<and>
   find_uncovered_functions
     \<lparr>path = ''src/lib.rs'', total_lines = 8, covered_lines = 4, uncovered_lines = 4,
      coverage_percent = 50, uncovered_line_numbers = [2, 4, 5, 7],
      content =
        ''use std::fmt;'' @ [CHR 0x0A] @ ''const K: u32 = 1;'' @ [CHR 0x0A] @
        ''fn alpha() {'' @ [CHR 0x0A] @ ''    let x = K;'' @ [CHR 0x0A] @ ''}'' @ [CHR 0x0A] @
        ''fn beta() {'' @ [CHR 0x0A] @ ''    let y = K;'' @ [CHR 0x0A] @ ''}''\<rparr> =
     [(4, ''alpha''), (7, ''beta'')] \<and>
   distinct (map snd (find_uncovered_functions
     \<lparr>path = ''src/lib.rs'', total_lines = 8, covered_lines = 4, uncovered_lines = 4,
      coverage_percent = 50, uncovered_line_numbers = [2, 4, 5, 7],
      content =
        ''use std::fmt;'' @ [CHR 0x0A] @ ''const K: u32 = 1;'' @ [CHR 0x0A] @
        ''fn alpha() {'' @ [CHR 0x0A] @ ''    let x = K;'' @ [CHR 0x0A] @ ''}'' @ [CHR 0x0A] @
        ''fn beta() {'' @ [CHR 0x0A] @ ''    let y = K;'' @ [CHR 0x0A] @ ''}''\<rparr>)) \<and>
   group_uncovered_by_function (\<lambda>_. Missing) ''src/lib.rs'' [2, 4, 5, 7] =
     Inr [(''unknown'', [2, 4, 5, 7])]"
proof -
  let ?text = "''use std::fmt;'' @ [CHR 0x0A] @ ''const K: u32 = 1;'' @ [CHR 0x0A] @
      ''fn alpha() {'' @ [CHR 0x0A] @ ''    let x = K;'' @ [CHR 0x0A] @ ''}'' @ [CHR 0x0A] @
      ''fn beta() {'' @ [CHR 0x0A] @ ''    let y = K;'' @ [CHR 0x0A] @ ''}''"
  let ?a = "\<lparr>path = ''src/lib.rs'', total_lines = 8, covered_lines = 4, uncovered_lines = 4,
      coverage_percent = 50, uncovered_line_numbers = [2, 4, 5, 7], content = ?text\<rparr>"
  have e1: "extract_function_at_line_html ?text 2 = ''unknown''" by code_simp
  have e2: "find_uncovered_functions ?a = [(4, ''alpha''), (7, ''beta'')]" by code_simp
  have e3: "group_uncovered_by_function (\<lambda>_. Missing) ''src/lib.rs'' [2, 4, 5, 7] =
              Inr [(''unknown'', [2, 4, 5, 7])]"
    by code_simp
  from find_uncovered_functions_first_lines [of ?a "\<lambda>_. Missing" "''src/lib.rs''" "[2, 4, 5, 7]"]
  have d: "distinct (map snd (find_uncovered_functions ?a))" by (rule conjunct1)
  from e1 e2 d e3 show ?thesis by (intro conjI)
qed

end
